theory Spec2Isabelle
  imports Complex_Main "HOL-Library.Word"
begin

section \<open>Byte arrays\<close>

text \<open>
  An image is a numpy array of dtype uint8: a shape and a flat buffer in row-major order.
  A canonical colour image has shape \<open>[h, w, 3]\<close>, a single-channel image \<open>[h, w]\<close>.
\<close>

type_synonym u8 = "8 word"

record ndarray =
  shape :: "nat list"
  data :: "u8 list"

definition wf_array :: "ndarray \<Rightarrow> bool" where
  "wf_array a \<longleftrightarrow> length (data a) = prod_list (shape a)"

text \<open>\<open>cv2.error\<close> carries the message of the OpenCV call that raised it.\<close>

datatype error = CvError string | ValueError

section \<open>OpenCV and numpy operations used by the widget\<close>

text \<open>\<open>cv2.absdiff\<close> on two uint8 values: the distance, which always fits a byte.\<close>

definition absdiff_u8 :: "u8 \<Rightarrow> u8 \<Rightarrow> u8" where
  "absdiff_u8 x y = (if x \<le> y then y - x else x - y)"

text \<open>
  \<open>cv2.absdiff(src1, src2)\<close>: raises \<open>cv2.error\<close> when the second argument is \<open>None\<close>
  (what \<open>cv2.imdecode\<close> returns for a buffer it cannot decode) and when the two arrays
  differ in size or channel count.
\<close>

definition absdiff :: "ndarray \<Rightarrow> ndarray option \<Rightarrow> error + ndarray" where
  "absdiff a b =
     (case b of
        None \<Rightarrow> Inl (CvError ''absdiff'')
      | Some b' \<Rightarrow>
          if shape a = shape b' \<and> length (data a) = length (data b')
          then Inr \<lparr>shape = shape a, data = map2 absdiff_u8 (data a) (data b')\<rparr>
          else Inl (CvError ''absdiff''))"

text \<open>
  \<open>np.mean\<close> of a uint8 array: the sum of the elements over their number, \<open>nan\<close>
  (here \<open>None\<close>) for an array with no element. The float64 that numpy returns is the
  rounding of this rational.
\<close>

definition np_mean :: "ndarray \<Rightarrow> rat option" where
  "np_mean a =
     (if data a = [] then None
      else Some (of_int (sum_list (map uint (data a))) / of_nat (length (data a))))"

section \<open>The multiple compression widget\<close>

text \<open>
  The JPEG codec is OpenCV's: \<open>enc img q\<close> is
  \<open>cv2.imencode('.jpg', img, [int(cv2.IMWRITE_JPEG_QUALITY), q])\<close>, which raises
  \<open>cv2.error\<close> or returns the pair of a success flag and the encoded buffer, and
  \<open>dec buf\<close> is \<open>cv2.imdecode(buf, 1)\<close>, which raises, returns \<open>None\<close> or returns the
  decoded image. Every call of the codec is recorded.
\<close>

type_synonym encoder = "ndarray \<Rightarrow> int \<Rightarrow> error + (bool \<times> u8 list)"
type_synonym decoder = "u8 list \<Rightarrow> error + ndarray option"

datatype call = Imencode int | Imdecode

type_synonym sample = "int \<times> rat option"

text \<open>
  A message is a fixed text or the f-string \<open>f"Recompression diffs: {diffs}"\<close>, kept as
  the list it renders. A \<open>QImage\<close> is built from a buffer, a width, a height and a row
  length in bytes.
\<close>

datatype message = Text string | RecompressionDiffs "sample list"

record qimage =
  bits :: "u8 list"
  width :: nat
  height :: nat
  bytes_per_line :: nat

record widget =
  filename :: string
  image :: ndarray
  info_message :: "message list"
  result_label :: "message option"
  figure :: "(int list \<times> rat option list) option"
  heatmap_label :: "qimage option"

record outcome =
  calls :: "call list"
  widget_after :: widget
  raised :: "error option"

text \<open>
  \<open>__init__\<close>: stores the file name and the image, builds empty views, and emits the
  description of the tool.
\<close>

definition init_widget :: "string \<Rightarrow> ndarray \<Rightarrow> widget" where
  "init_widget fname img =
     \<lparr>filename = fname, image = img,
      info_message = [Text ''Detects multiple JPEG compressions''],
      result_label = None, figure = None, heatmap_label = None\<rparr>"

text \<open>
  Both methods open with the same three statements: encode the stored image at a quality,
  decode the buffer (the success flag of \<open>imencode\<close> is dropped), and take the absolute
  difference with the stored image. The result comes with the codec calls made.
\<close>

definition roundtrip_diff ::
  "encoder \<Rightarrow> decoder \<Rightarrow> ndarray \<Rightarrow> int \<Rightarrow> call list \<times> (error + ndarray)" where
  "roundtrip_diff enc dec img q =
     (case enc img q of
        Inl e \<Rightarrow> ([Imencode q], Inl e)
      | Inr (_, encimg) \<Rightarrow>
          (case dec encimg of
             Inl e \<Rightarrow> ([Imencode q, Imdecode], Inl e)
           | Inr decimg \<Rightarrow> ([Imencode q, Imdecode], absdiff img decimg)))"

text \<open>
  The loop of \<open>run_graph\<close> over the remaining quality levels: \<open>ds\<close> is the list
  \<open>diffs\<close> built so far and \<open>tr\<close> the codec calls made so far. An exception leaves
  the loop at once.
\<close>

fun graph_loop ::
  "encoder \<Rightarrow> decoder \<Rightarrow> ndarray \<Rightarrow> int list \<Rightarrow> sample list \<Rightarrow> call list
     \<Rightarrow> call list \<times> (error + sample list)" where
  "graph_loop enc dec img [] ds tr = (tr, Inr ds)"
| "graph_loop enc dec img (q # qs) ds tr =
     (case roundtrip_diff enc dec img q of
        (c, Inl e) \<Rightarrow> (tr @ c, Inl e)
      | (c, Inr d) \<Rightarrow> graph_loop enc dec img qs (ds @ [(q, np_mean d)]) (tr @ c))"

definition qualities :: "int list" where
  "qualities = [95, 90, 85, 80, 75, 70, 65, 60, 55, 50]"

text \<open>
  \<open>run_graph\<close>: the sweep, then the message, emitted and shown in the label, then the plot
  of the unzipped samples. \<open>zip(*diffs)\<close> unpacks into two names and raises
  \<open>ValueError\<close> on an empty list, after the label has been set and the figure cleared.
\<close>

definition run_graph :: "encoder \<Rightarrow> decoder \<Rightarrow> widget \<Rightarrow> outcome" where
  "run_graph enc dec w =
     (case graph_loop enc dec (image w) qualities [] [] of
        (tr, Inl e) \<Rightarrow> \<lparr>calls = tr, widget_after = w, raised = Some e\<rparr>
      | (tr, Inr ds) \<Rightarrow>
          (let msg = RecompressionDiffs ds;
               w1 = w\<lparr>info_message := info_message w @ [msg], result_label := Some msg\<rparr>
           in if ds = []
              then \<lparr>calls = tr, widget_after = w1\<lparr>figure := None\<rparr>,
                    raised = Some ValueError\<rparr>
              else \<lparr>calls = tr,
                    widget_after = w1\<lparr>figure := Some (map fst ds, map snd ds)\<rparr>,
                    raised = None\<rparr>))"

text \<open>
  \<open>run_heatmap\<close>: one round trip at quality 70, the false-colour map of the difference
  (\<open>cv2.applyColorMap\<close>, a parameter here), and the pixmap of the label. Unpacking
  \<open>heatmap.shape\<close> into three names raises \<open>ValueError\<close> for any other rank.
\<close>

definition run_heatmap ::
  "encoder \<Rightarrow> decoder \<Rightarrow> (ndarray \<Rightarrow> error + ndarray) \<Rightarrow> widget \<Rightarrow> outcome" where
  "run_heatmap enc dec applyColorMap w =
     (case roundtrip_diff enc dec (image w) 70 of
        (tr, Inl e) \<Rightarrow> \<lparr>calls = tr, widget_after = w, raised = Some e\<rparr>
      | (tr, Inr diff_img) \<Rightarrow>
          (case applyColorMap diff_img of
             Inl e \<Rightarrow> \<lparr>calls = tr, widget_after = w, raised = Some e\<rparr>
           | Inr heatmap \<Rightarrow>
               (case shape heatmap of
                  [h, wd, ch] \<Rightarrow>
                    \<lparr>calls = tr,
                     widget_after = w\<lparr>heatmap_label :=
                       Some \<lparr>bits = data heatmap, width = wd, height = h,
                             bytes_per_line = ch * wd\<rparr>\<rparr>,
                     raised = None\<rparr>
                | _ \<Rightarrow> \<lparr>calls = tr, widget_after = w, raised = Some ValueError\<rparr>)))"

subsection \<open>What the curve and the difference map are meant to hold\<close>

text \<open>
  The reference notions the widget is compared with. The round trip of an image at a
  quality is the decoded image when both codec calls return one. The mean absolute
  difference of two images is taken over the integers. A recompression sample is the
  quality with the mean absolute difference between the image and its round trip, when
  the round trip has the dimensions of the image.
\<close>

definition roundtrip :: "encoder \<Rightarrow> decoder \<Rightarrow> ndarray \<Rightarrow> int \<Rightarrow> ndarray option" where
  "roundtrip enc dec img q =
     (case enc img q of
        Inl _ \<Rightarrow> None
      | Inr (_, buf) \<Rightarrow> (case dec buf of Inr (Some r) \<Rightarrow> Some r | _ \<Rightarrow> None))"

definition mean_abs_diff :: "ndarray \<Rightarrow> ndarray \<Rightarrow> rat option" where
  "mean_abs_diff a b =
     (if data a = [] then None
      else Some (of_int (sum_list (map2 (\<lambda>x y. \<bar>uint x - uint y\<bar>) (data a) (data b)))
                 / of_nat (length (data a))))"

definition recompression_sample ::
  "encoder \<Rightarrow> decoder \<Rightarrow> ndarray \<Rightarrow> int \<Rightarrow> sample option" where
  "recompression_sample enc dec img q =
     (case roundtrip enc dec img q of
        None \<Rightarrow> None
      | Some r \<Rightarrow>
          if shape r = shape img \<and> length (data r) = length (data img)
          then Some (q, mean_abs_diff img r) else None)"

text \<open>
  The difference map of an image and its round trip is the buffer of the dimensions of
  the image that holds, for each byte, the magnitude of the difference of the two.
\<close>

definition difference_map :: "ndarray \<Rightarrow> ndarray \<Rightarrow> ndarray" where
  "difference_map a r =
     \<lparr>shape = shape a, data = map2 (\<lambda>x y. word_of_int \<bar>uint x - uint y\<bar>) (data a) (data r)\<rparr>"

subsection \<open>A small codec and image to run the widget on\<close>

text \<open>
  A lossy stand-in for the JPEG codec: the encoder keeps the raw bytes and drops more of
  each byte at the lower qualities, the decoder rebuilds a three-channel image of one
  row. \<open>picky_enc\<close> raises below quality 60.
\<close>

definition coarse_enc :: encoder where
  "coarse_enc img q =
     Inr (True, map (\<lambda>x. if 90 \<le> q then x else if 70 \<le> q then x - x mod 4 else x - x mod 16)
                 (data img))"

definition row_dec :: decoder where
  "row_dec buf = Inr (Some \<lparr>shape = [1, length buf div 3, 3], data = buf\<rparr>)"


definition two_pixels :: ndarray where
  "two_pixels = \<lparr>shape = [1, 2, 3], data = [10, 21, 35, 200, 100, 7]\<rparr>"

definition jet :: "ndarray \<Rightarrow> error + ndarray" where
  "jet a = Inr a"





section \<open>Histogram\<close>

text \<open>
  Modelled from the spec: \<open>compute_hist\<close> of \<open>utility.py\<close>, which is not among the
  sources; its test \<open>test_compute_hist\<close> is. The spec gives a single-channel 256-bin
  count: bin \<open>v\<close> holds the number of pixels of intensity \<open>v\<close>, as a Python integer.
\<close>

definition compute_hist :: "ndarray \<Rightarrow> int list" where
  "compute_hist img = map (\<lambda>v. int (count_list (data img) (of_nat v))) [0..<256]"

section \<open>Canonical image loader\<close>

text \<open>
  Modelled from the spec: \<open>load_image\<close> of \<open>utility.py\<close>, which is not among the
  sources; its tests are. The spec's loader takes decoded pixel data of 1, 3 or 4
  channels and gives three channels: a single channel is replicated, the fourth channel
  of four is discarded and the other three pass through, and a buffer of zero area gives
  \<open>EmptyImage\<close> and no image.
\<close>

datatype load_error = SourceUnavailable | EmptyImage | UnsupportedFormat

fun replicate_gray :: "u8 list \<Rightarrow> u8 list" where
  "replicate_gray [] = []"
| "replicate_gray (x # xs) = x # x # x # replicate_gray xs"

fun discard_alpha :: "u8 list \<Rightarrow> u8 list" where
  "discard_alpha (b # g # r # a # xs) = b # g # r # discard_alpha xs"
| "discard_alpha _ = []"

definition load_image :: "ndarray \<Rightarrow> load_error + ndarray" where
  "load_image src =
     (case shape src of
        [h, w] \<Rightarrow>
          if h * w = 0 then Inl EmptyImage
          else Inr \<lparr>shape = [h, w, 3], data = replicate_gray (data src)\<rparr>
      | [h, w, c] \<Rightarrow>
          if h * w = 0 then Inl EmptyImage
          else if c = 1 then Inr \<lparr>shape = [h, w, 3], data = replicate_gray (data src)\<rparr>
          else if c = 3 then Inr src
          else if c = 4 then Inr \<lparr>shape = [h, w, 3], data = discard_alpha (data src)\<rparr>
          else Inl UnsupportedFormat
      | _ \<Rightarrow> Inl UnsupportedFormat)"

section \<open>Dependency validation\<close>

text \<open>
  The environment decides what \<open>importlib.import_module\<close> does with a module name: it
  returns, raises \<open>ImportError\<close> (with its message), or raises something else while the
  module's own code runs. \<open>tf_version\<close> is \<open>tensorflow.__version__\<close>, or \<open>None\<close> when
  the module has no such attribute and reading it raises \<open>AttributeError\<close>.
\<close>

datatype import_result =
    Imported
  | is_ImportError: ImportError string
  | is_OtherError: OtherError string

record environment =
  import_module :: "string \<Rightarrow> import_result"
  tf_version :: "string option"

definition get_required_packages :: "(string \<times> string) list" where
  "get_required_packages =
     [(''PySide6'', ''PySide6''),
      (''opencv-contrib-python-headless'', ''cv2''),
      (''numpy'', ''numpy''),
      (''Pillow'', ''PIL''),
      (''matplotlib'', ''matplotlib''),
      (''pandas'', ''pandas''),
      (''scikit-learn'', ''sklearn''),
      (''lxml'', ''lxml''),
      (''python-magic'', ''magic''),
      (''rawpy'', ''rawpy''),
      (''sewar'', ''sewar''),
      (''PyWavelets'', ''pywt''),
      (''astor'', ''astor''),
      (''concurrent-iterator'', ''concurrent_iterator''),
      (''keras-applications'', ''keras_applications''),
      (''xgboost'', ''xgboost'')]"

text \<open>
  The status messages and the printed lines, by kind and with the values they hold; the
  glyphs and the layout of the text are left out.
\<close>

datatype status =
    IsAvailable string
  | IsMissing string string
  | TensorFlowAvailable string
  | TensorFlowNotFound

datatype line =
    Validating
  | Rule
  | Message status
  | RequiredPackages
  | AvailableCount nat nat
  | MissingCount nat
  | MissingItem string
  | AllInstalled
  | TensorFlowRecommended

definition check_package :: "environment \<Rightarrow> string \<Rightarrow> string \<Rightarrow> string + (bool \<times> status)" where
  "check_package env package_name import_name =
     (case import_module env import_name of
        Imported \<Rightarrow> Inr (True, IsAvailable package_name)
      | ImportError e \<Rightarrow> Inr (False, IsMissing package_name e)
      | OtherError x \<Rightarrow> Inl x)"

definition check_tensorflow :: "environment \<Rightarrow> string + (bool \<times> status)" where
  "check_tensorflow env =
     (case import_module env ''tensorflow'' of
        Imported \<Rightarrow>
          (case tf_version env of
             Some version \<Rightarrow> Inr (True, TensorFlowAvailable version)
           | None \<Rightarrow> Inl ''AttributeError'')
      | ImportError _ \<Rightarrow> Inr (False, TensorFlowNotFound)
      | OtherError x \<Rightarrow> Inl x)"

text \<open>
  The loop of \<open>validate_dependencies\<close> over the remaining items of the dictionary, with
  the two lists and the output so far.
\<close>

fun check_all ::
  "environment \<Rightarrow> bool \<Rightarrow> (string \<times> string) list \<Rightarrow> string list \<Rightarrow> string list
     \<Rightarrow> line list \<Rightarrow> line list \<times> (string + (string list \<times> string list))" where
  "check_all env detailed [] available missing out = (out, Inr (available, missing))"
| "check_all env detailed ((package_name, import_name) # rest) available missing out =
     (case check_package env package_name import_name of
        Inl x \<Rightarrow> (out, Inl x)
      | Inr (is_available, message) \<Rightarrow>
          (let out' = (if detailed then out @ [Message message] else out)
           in if is_available
              then check_all env detailed rest (available @ [package_name]) missing out'
              else check_all env detailed rest available (missing @ [package_name]) out'))"

definition validate_dependencies ::
  "bool \<Rightarrow> environment
     \<Rightarrow> line list \<times> (string + (bool \<times> string list \<times> string list))" where
  "validate_dependencies detailed env =
     (let out0 = (if detailed then [Validating, Rule] else []);
          required_packages = get_required_packages
      in case check_tensorflow env of
           Inl x \<Rightarrow> (out0, Inl x)
         | Inr (tf_available, tf_message) \<Rightarrow>
             (let out1 = out0 @ (if detailed then [Message tf_message, RequiredPackages] else [])
              in case check_all env detailed required_packages [] [] out1 of
                   (out2, Inl x) \<Rightarrow> (out2, Inl x)
                 | (out2, Inr (available, missing)) \<Rightarrow>
                     (out2 @
                      (if detailed
                       then [Rule, AvailableCount (length available) (length required_packages)]
                            @ (if missing \<noteq> []
                               then MissingCount (length missing) # map MissingItem missing
                               else [AllInstalled])
                            @ (if \<not> tf_available then [TensorFlowRecommended] else [])
                       else []),
                      Inr (length missing = 0, available, missing))))"

text \<open>An environment with OpenCV and numpy only, and one that also has TensorFlow.\<close>

definition bare_env :: environment where
  "bare_env =
     \<lparr>import_module = (\<lambda>m. if m = ''cv2'' \<or> m = ''numpy'' then Imported
                              else ImportError (''No module named '' @ m)),
      tf_version = None\<rparr>"

definition tf_env :: environment where
  "tf_env =
     \<lparr>import_module = (\<lambda>m. if m = ''cv2'' \<or> m = ''numpy'' \<or> m = ''tensorflow'' then Imported
                              else ImportError (''No module named '' @ m)),
      tf_version = Some ''2.15.0''\<rparr>"

section \<open>The recompression sweep\<close>

lemma coarse_roundtrip_diff:
  "roundtrip_diff coarse_enc row_dec two_pixels q =
     ([Imencode q, Imdecode],
      Inr \<lparr>shape = [1, 2, 3],
           data = (if 90 \<le> q then [0, 0, 0, 0, 0, 0]
                   else if 70 \<le> q then [2, 1, 3, 0, 0, 3] else [10, 5, 3, 8, 4, 7])\<rparr>)"
  by (simp add: roundtrip_diff_def coarse_enc_def row_dec_def two_pixels_def absdiff_def
      absdiff_u8_def)

lemma roundtrip_diff_calls_ok:
  "snd (roundtrip_diff enc dec img q) = Inr d \<Longrightarrow>
   fst (roundtrip_diff enc dec img q) = [Imencode q, Imdecode]"
  by (auto simp: roundtrip_diff_def split: sum.splits prod.splits)

lemma graph_loop_ok:
  "\<forall>q\<in>set qs. \<not> isl (snd (roundtrip_diff enc dec img q)) \<Longrightarrow>
   graph_loop enc dec img qs ds tr =
     (tr @ concat (map (\<lambda>q. [Imencode q, Imdecode]) qs),
      Inr (ds @ map (\<lambda>q. (q, np_mean (projr (snd (roundtrip_diff enc dec img q))))) qs))"
proof (induction qs arbitrary: ds tr)
  case Nil
  then show ?case by simp
next
  case (Cons q qs)
  obtain c r where cr: "roundtrip_diff enc dec img q = (c, r)"
    by (cases "roundtrip_diff enc dec img q")
  with Cons.prems obtain d where d: "r = Inr d" by (cases r) auto
  from cr d have c: "c = [Imencode q, Imdecode]"
    using roundtrip_diff_calls_ok [of enc dec img q d] by simp
  from Cons.prems have "\<forall>q\<in>set qs. \<not> isl (snd (roundtrip_diff enc dec img q))" by simp
  from Cons.IH [OF this] cr d c show ?case by simp
qed

lemma graph_loop_Inr:
  "snd (graph_loop enc dec img qs ds tr) = Inr ds' \<Longrightarrow>
   \<forall>q\<in>set qs. \<not> isl (snd (roundtrip_diff enc dec img q))"
proof (induction qs arbitrary: ds tr)
  case Nil
  then show ?case by simp
next
  case (Cons q qs)
  obtain c r where cr: "roundtrip_diff enc dec img q = (c, r)"
    by (cases "roundtrip_diff enc dec img q")
  show ?case
  proof (cases r)
    case (Inl e)
    with cr Cons.prems show ?thesis by simp
  next
    case (Inr d)
    with cr Cons.prems
    have "snd (graph_loop enc dec img qs (ds @ [(q, np_mean d)]) (tr @ c)) = Inr ds'" by simp
    from Cons.IH [OF this] cr Inr show ?thesis by simp
  qed
qed


lemma run_graph_ok:
  assumes "\<forall>q\<in>set qualities. \<not> isl (snd (roundtrip_diff enc dec (image w) q))"
  shows "run_graph enc dec w =
    (let ds = map (\<lambda>q. (q, np_mean (projr (snd (roundtrip_diff enc dec (image w) q))))) qualities;
         msg = RecompressionDiffs ds
     in \<lparr>calls = concat (map (\<lambda>q. [Imencode q, Imdecode]) qualities),
         widget_after = w\<lparr>info_message := info_message w @ [msg], result_label := Some msg,
                          figure := Some (map fst ds, map snd ds)\<rparr>,
         raised = None\<rparr>)"
proof -
  have ne: "qualities \<noteq> []" by (simp add: qualities_def)
  show ?thesis
    unfolding run_graph_def graph_loop_ok [OF assms] using ne by (simp add: Let_def)
qed

lemma run_graph_raised_None:
  "raised (run_graph enc dec w) = None \<longleftrightarrow>
   (\<forall>q\<in>set qualities. \<not> isl (snd (roundtrip_diff enc dec (image w) q)))"
proof
  assume r: "raised (run_graph enc dec w) = None"
  obtain tr res where g: "graph_loop enc dec (image w) qualities [] [] = (tr, res)"
    by (cases "graph_loop enc dec (image w) qualities [] []")
  with r obtain ds where "res = Inr ds"
    by (cases res) (auto simp: run_graph_def)
  with g have "snd (graph_loop enc dec (image w) qualities [] []) = Inr ds" by simp
  then show "\<forall>q\<in>set qualities. \<not> isl (snd (roundtrip_diff enc dec (image w) q))"
    by (rule graph_loop_Inr)
next
  assume "\<forall>q\<in>set qualities. \<not> isl (snd (roundtrip_diff enc dec (image w) q))"
  then show "raised (run_graph enc dec w) = None"
    by (simp add: run_graph_ok Let_def)
qed




subsection \<open>The samples of the curve\<close>

lemma uint_absdiff_u8: "uint (absdiff_u8 x y) = \<bar>uint x - uint y\<bar>"
  by (auto simp: absdiff_u8_def uint_sub_if' word_le_def word_less_def split: if_splits)

lemma map_uint_absdiff:
  "map uint (map2 absdiff_u8 xs ys) = map2 (\<lambda>x y. \<bar>uint x - uint y\<bar>) xs ys"
  by (simp add: uint_absdiff_u8 split_def)

lemma np_mean_absdiff:
  assumes "absdiff a (Some b) = Inr d"
  shows "np_mean d = mean_abs_diff a b"
proof -
  from assms have len: "length (data a) = length (data b)"
    and d: "data d = map2 absdiff_u8 (data a) (data b)"
    by (auto simp: absdiff_def split: if_splits)
  from len d have "data d = [] \<longleftrightarrow> data a = []" by auto
  moreover from len d have "length (data d) = length (data a)" by simp
  ultimately show ?thesis
    unfolding np_mean_def mean_abs_diff_def d map_uint_absdiff by simp
qed

lemma roundtrip_diff_sample:
  assumes "snd (roundtrip_diff enc dec img q) = Inr d"
  shows "recompression_sample enc dec img q = Some (q, np_mean d)"
proof -
  from assms obtain ok buf r where e: "enc img q = Inr (ok, buf)"
    and r: "dec buf = Inr r" and a: "absdiff img r = Inr d"
    by (auto simp: roundtrip_diff_def split: sum.splits prod.splits)
  from a obtain b where b: "r = Some b" and sh: "shape img = shape b"
    and len: "length (data img) = length (data b)"
    by (auto simp: absdiff_def split: option.splits if_splits)
  from a b have "np_mean d = mean_abs_diff img b" by (simp add: np_mean_absdiff)
  with e r b sh len show ?thesis
    by (simp add: recompression_sample_def roundtrip_def)
qed

lemma roundtrip_diff_no_sample:
  "snd (roundtrip_diff enc dec img q) = Inl e \<Longrightarrow> recompression_sample enc dec img q = None"
  by (auto simp: roundtrip_diff_def recompression_sample_def roundtrip_def absdiff_def
      split: sum.splits option.splits prod.splits if_splits)

lemma sample_iff_roundtrip_diff:
  "recompression_sample enc dec img q \<noteq> None \<longleftrightarrow> \<not> isl (snd (roundtrip_diff enc dec img q))"
  by (cases "snd (roundtrip_diff enc dec img q)")
     (auto dest: roundtrip_diff_sample roundtrip_diff_no_sample)

lemma sample_of_roundtrip_diff:
  "\<not> isl (snd (roundtrip_diff enc dec img q)) \<Longrightarrow>
   recompression_sample enc dec img q =
     Some (q, np_mean (projr (snd (roundtrip_diff enc dec img q))))"
  by (cases "snd (roundtrip_diff enc dec img q)") (auto dest: roundtrip_diff_sample)

text \<open>
  Claim C1. The curve of \<open>run_graph\<close> holds one sample for each level of the list
  95, 90, ..., 50, scanned from high to low: the sample of a level is the level with the
  mean absolute difference between the image and its encode/decode round trip at that
  level, and the samples come in the order of the levels, as do the codec calls. The
  run completes exactly when every level has such a sample.
\<close>

theorem run_graph_curve:
  "(raised (run_graph enc dec w) = None \<longleftrightarrow>
      (\<forall>q\<in>set qualities. recompression_sample enc dec (image w) q \<noteq> None)) \<and>
   (raised (run_graph enc dec w) = None \<longrightarrow>
      (\<exists>ds. result_label (widget_after (run_graph enc dec w)) = Some (RecompressionDiffs ds) \<and>
            map Some ds = map (recompression_sample enc dec (image w)) qualities \<and>
            calls (run_graph enc dec w) = concat (map (\<lambda>q. [Imencode q, Imdecode]) qualities))) \<and>
   qualities = [95, 90, 85, 80, 75, 70, 65, 60, 55, 50] \<and> sorted (rev qualities)"
proof (intro conjI impI)
  show "raised (run_graph enc dec w) = None \<longleftrightarrow>
      (\<forall>q\<in>set qualities. recompression_sample enc dec (image w) q \<noteq> None)"
    by (simp only: run_graph_raised_None sample_iff_roundtrip_diff)
next
  assume "raised (run_graph enc dec w) = None"
  then have ok: "\<forall>q\<in>set qualities. \<not> isl (snd (roundtrip_diff enc dec (image w) q))"
    by (simp add: run_graph_raised_None)
  let ?ds = "map (\<lambda>q. (q, np_mean (projr (snd (roundtrip_diff enc dec (image w) q))))) qualities"
  have a: "result_label (widget_after (run_graph enc dec w)) = Some (RecompressionDiffs ?ds)"
    by (simp add: run_graph_ok [OF ok] Let_def)
  have b: "map Some ?ds = map (recompression_sample enc dec (image w)) qualities"
    using ok by (simp add: sample_of_roundtrip_diff)
  have c: "calls (run_graph enc dec w) = concat (map (\<lambda>q. [Imencode q, Imdecode]) qualities)"
    by (simp add: run_graph_ok [OF ok] Let_def)
  from a b c
  show "\<exists>ds. result_label (widget_after (run_graph enc dec w)) = Some (RecompressionDiffs ds) \<and>
            map Some ds = map (recompression_sample enc dec (image w)) qualities \<and>
            calls (run_graph enc dec w) = concat (map (\<lambda>q. [Imencode q, Imdecode]) qualities)"
    by (intro exI [of _ ?ds] conjI)
next
  show "qualities = [95, 90, 85, 80, 75, 70, 65, 60, 55, 50]" by (simp add: qualities_def)
next
  show "sorted (rev qualities)" by (simp add: qualities_def)
qed

lemma coarse_sample:
  "recompression_sample coarse_enc row_dec two_pixels q =
     Some (q, if 90 \<le> q then Some 0 else if 70 \<le> q then Some (3 / 2) else Some (37 / 6))"
  using roundtrip_diff_sample [of coarse_enc row_dec two_pixels q]
  by (simp add: coarse_roundtrip_diff np_mean_def)

theorem run_graph_curve_witness:
  "raised (run_graph coarse_enc row_dec (init_widget ''a.jpg'' two_pixels)) = None \<and>
   result_label (widget_after (run_graph coarse_enc row_dec (init_widget ''a.jpg'' two_pixels))) =
     Some (RecompressionDiffs
       [(95, Some 0), (90, Some 0), (85, Some (3 / 2)), (80, Some (3 / 2)), (75, Some (3 / 2)),
        (70, Some (3 / 2)), (65, Some (37 / 6)), (60, Some (37 / 6)), (55, Some (37 / 6)),
        (50, Some (37 / 6))])"
proof -
  let ?w = "init_widget ''a.jpg'' two_pixels"
  note inst = run_graph_curve [of coarse_enc row_dec ?w]
  have img: "image ?w = two_pixels" by (simp add: init_widget_def)
  have ok: "\<forall>q\<in>set qualities. recompression_sample coarse_enc row_dec (image ?w) q \<noteq> None"
    by (simp add: img coarse_sample)
  with inst have r: "raised (run_graph coarse_enc row_dec ?w) = None"
    by (simp only: simp_thms)
  with inst obtain ds where
    l: "result_label (widget_after (run_graph coarse_enc row_dec ?w)) = Some (RecompressionDiffs ds)"
    and m: "map Some ds = map (recompression_sample coarse_enc row_dec (image ?w)) qualities"
    by (elim conjE impE exE)
  from m have "map Some ds = map Some
       [(95, Some 0), (90, Some 0), (85, Some (3 / 2)), (80, Some (3 / 2)), (75, Some (3 / 2)),
        (70, Some (3 / 2)), (65, Some (37 / 6)), (60, Some (37 / 6)), (55, Some (37 / 6)),
        (50, Some (37 / 6))]"
    by (simp add: img coarse_sample qualities_def)
  then have "ds = [(95, Some 0), (90, Some 0), (85, Some (3 / 2)), (80, Some (3 / 2)), (75, Some (3 / 2)),
        (70, Some (3 / 2)), (65, Some (37 / 6)), (60, Some (37 / 6)), (55, Some (37 / 6)),
        (50, Some (37 / 6))]"
    by (simp only: inj_map_eq_map [OF inj_Some])
  with r l show ?thesis by simp
qed

subsection \<open>What the two methods leave alone\<close>

lemma run_graph_image: "image (widget_after (run_graph enc dec w)) = image w"
  by (simp add: run_graph_def Let_def split: prod.splits sum.splits)

lemma run_graph_filename: "filename (widget_after (run_graph enc dec w)) = filename w"
  by (simp add: run_graph_def Let_def split: prod.splits sum.splits)

lemma run_heatmap_image: "image (widget_after (run_heatmap enc dec cm w)) = image w"
  by (simp add: run_heatmap_def split: prod.splits sum.splits list.splits)

lemma run_heatmap_filename: "filename (widget_after (run_heatmap enc dec cm w)) = filename w"
  by (simp add: run_heatmap_def split: prod.splits sum.splits list.splits)

text \<open>
  Claim C4. Neither analyzer changes the stored image: after \<open>run_graph\<close> and after
  \<open>run_heatmap\<close>, whether they return or raise, \<open>self.image\<close> (and the file name) is what
  it was before the call.
\<close>

theorem analyzers_keep_image:
  "image (widget_after (run_graph enc dec w)) = image w \<and>
   image (widget_after (run_heatmap enc dec cm w)) = image w \<and>
   filename (widget_after (run_graph enc dec w)) = filename w \<and>
   filename (widget_after (run_heatmap enc dec cm w)) = filename w"
  by (simp add: run_graph_image run_heatmap_image run_graph_filename run_heatmap_filename)

subsection \<open>The curve depends on the image alone\<close>

lemma run_graph_same_image:
  assumes "image w1 = image w2"
  shows "calls (run_graph enc dec w1) = calls (run_graph enc dec w2) \<and>
         raised (run_graph enc dec w1) = raised (run_graph enc dec w2) \<and>
         (raised (run_graph enc dec w1) = None \<longrightarrow>
            result_label (widget_after (run_graph enc dec w1)) =
              result_label (widget_after (run_graph enc dec w2)) \<and>
            figure (widget_after (run_graph enc dec w1)) =
              figure (widget_after (run_graph enc dec w2)))"
proof -
  obtain tr res where g: "graph_loop enc dec (image w2) qualities [] [] = (tr, res)"
    by (cases "graph_loop enc dec (image w2) qualities [] []")
  show ?thesis
    by (cases res) (simp_all add: run_graph_def assms g Let_def)
qed

text \<open>
  Claim C2. The curve is a function of the image (and of the codec) only: two widgets
  holding the same image make the same codec calls, raise the same error or none, and
  show the same samples and the same plot, whatever else they held before; and running
  \<open>run_graph\<close> again on the widget it has just updated reproduces the same samples.
\<close>

theorem run_graph_deterministic:
  "image w1 = image w2 \<Longrightarrow>
   calls (run_graph enc dec w1) = calls (run_graph enc dec w2) \<and>
   raised (run_graph enc dec w1) = raised (run_graph enc dec w2) \<and>
   (raised (run_graph enc dec w1) = None \<longrightarrow>
      result_label (widget_after (run_graph enc dec w1)) =
        result_label (widget_after (run_graph enc dec w2)) \<and>
      figure (widget_after (run_graph enc dec w1)) =
        figure (widget_after (run_graph enc dec w2))) \<and>
   calls (run_graph enc dec (widget_after (run_graph enc dec w1))) = calls (run_graph enc dec w1) \<and>
   raised (run_graph enc dec (widget_after (run_graph enc dec w1))) = raised (run_graph enc dec w1) \<and>
   (raised (run_graph enc dec w1) = None \<longrightarrow>
      result_label (widget_after (run_graph enc dec (widget_after (run_graph enc dec w1)))) =
        result_label (widget_after (run_graph enc dec w1)) \<and>
      figure (widget_after (run_graph enc dec (widget_after (run_graph enc dec w1)))) =
        figure (widget_after (run_graph enc dec w1)))"
proof -
  assume eq: "image w1 = image w2"
  let ?w' = "widget_after (run_graph enc dec w1)"
  have again: "image ?w' = image w1" by (rule run_graph_image)
  from run_graph_same_image [OF eq, of enc dec] run_graph_same_image [OF again, of enc dec]
  show ?thesis by simp
qed

lemma coarse_run_ok:
  "raised (run_graph coarse_enc row_dec (init_widget n two_pixels)) = None"
  by (simp add: run_graph_raised_None init_widget_def coarse_roundtrip_diff)

theorem run_graph_deterministic_witness:
  "image (init_widget ''a.jpg'' two_pixels) = image (init_widget ''b.jpg'' two_pixels) \<and>
   raised (run_graph coarse_enc row_dec (init_widget ''a.jpg'' two_pixels)) = None \<and>
   calls (run_graph coarse_enc row_dec (init_widget ''a.jpg'' two_pixels)) =
     calls (run_graph coarse_enc row_dec (init_widget ''b.jpg'' two_pixels)) \<and>
   result_label (widget_after (run_graph coarse_enc row_dec (init_widget ''a.jpg'' two_pixels))) =
     result_label (widget_after (run_graph coarse_enc row_dec (init_widget ''b.jpg'' two_pixels))) \<and>
   result_label (widget_after (run_graph coarse_enc row_dec
       (widget_after (run_graph coarse_enc row_dec (init_widget ''a.jpg'' two_pixels))))) =
     result_label (widget_after (run_graph coarse_enc row_dec (init_widget ''a.jpg'' two_pixels)))"
proof -
  have eq: "image (init_widget ''a.jpg'' two_pixels) = image (init_widget ''b.jpg'' two_pixels)"
    by (simp add: init_widget_def)
  from run_graph_deterministic [OF eq, of coarse_enc row_dec] eq
  show ?thesis by (simp add: coarse_run_ok)
qed

section \<open>The difference map\<close>

lemma absdiff_u8_magnitude: "absdiff_u8 x y = word_of_int \<bar>uint x - uint y\<bar>"
  using uint_absdiff_u8 [of x y, symmetric] by simp

lemma absdiff_difference_map:
  "shape a = shape r \<Longrightarrow> length (data a) = length (data r) \<Longrightarrow>
   absdiff a (Some r) = Inr (difference_map a r)"
  by (simp add: absdiff_def difference_map_def absdiff_u8_magnitude [abs_def])

lemma roundtrip_diff_Inr_iff:
  "snd (roundtrip_diff enc dec img q) = Inr d \<longleftrightarrow>
     (\<exists>r. roundtrip enc dec img q = Some r \<and> shape r = shape img \<and>
          length (data r) = length (data img) \<and> d = difference_map img r)"
  by (auto simp: roundtrip_diff_def roundtrip_def absdiff_def difference_map_def
      absdiff_u8_magnitude [abs_def] split: sum.splits prod.splits option.splits if_splits)

lemma roundtrip_diff_calls:
  "fst (roundtrip_diff enc dec img q) =
     (if isl (enc img q) then [Imencode q] else [Imencode q, Imdecode])"
  by (auto simp: roundtrip_diff_def split: sum.splits prod.splits)

lemma run_heatmap_calls:
  "calls (run_heatmap enc dec cm w) = fst (roundtrip_diff enc dec (image w) 70)"
  by (simp add: run_heatmap_def split: prod.splits sum.splits list.splits)

lemma difference_map_magnitude:
  "length (data a) = length (data r) \<Longrightarrow> i < length (data a) \<Longrightarrow>
   uint (data (difference_map a r) ! i) = \<bar>uint (data a ! i) - uint (data r ! i)\<bar>"
  by (simp add: difference_map_def absdiff_u8_magnitude [symmetric] uint_absdiff_u8)

lemma run_heatmap_cases:
  "run_heatmap enc dec cm w =
     (case snd (roundtrip_diff enc dec (image w) 70) of
        Inl e \<Rightarrow> \<lparr>calls = fst (roundtrip_diff enc dec (image w) 70), widget_after = w,
                   raised = Some e\<rparr>
      | Inr d \<Rightarrow>
          (case cm d of
             Inl e \<Rightarrow> \<lparr>calls = [Imencode 70, Imdecode], widget_after = w, raised = Some e\<rparr>
           | Inr hm \<Rightarrow>
               (case shape hm of
                  [h, wd, ch] \<Rightarrow>
                    \<lparr>calls = [Imencode 70, Imdecode],
                     widget_after = w\<lparr>heatmap_label :=
                       Some \<lparr>bits = data hm, width = wd, height = h, bytes_per_line = ch * wd\<rparr>\<rparr>,
                     raised = None\<rparr>
                | _ \<Rightarrow> \<lparr>calls = [Imencode 70, Imdecode], widget_after = w,
                         raised = Some ValueError\<rparr>)))"
proof (cases "roundtrip_diff enc dec (image w) 70")
  case (Pair tr res)
  show ?thesis
  proof (cases res)
    case (Inl e)
    with Pair show ?thesis by (simp add: run_heatmap_def)
  next
    case (Inr d)
    with Pair have "tr = [Imencode 70, Imdecode]"
      using roundtrip_diff_calls_ok [of enc dec "image w" 70 d] by simp
    with Pair Inr show ?thesis by (simp add: run_heatmap_def)
  qed
qed

lemma run_heatmap_completes_iff:
  "raised (run_heatmap enc dec cm w) = None \<longleftrightarrow>
     (\<exists>d hm h wd ch. snd (roundtrip_diff enc dec (image w) 70) = Inr d \<and> cm d = Inr hm \<and>
        shape hm = [h, wd, ch])"
  unfolding run_heatmap_cases
  by (auto split: sum.splits list.splits)

lemma run_heatmap_completed:
  assumes "snd (roundtrip_diff enc dec (image w) 70) = Inr d" and "cm d = Inr hm"
    and "shape hm = [h, wd, ch]"
  shows "run_heatmap enc dec cm w =
    \<lparr>calls = [Imencode 70, Imdecode],
     widget_after = w\<lparr>heatmap_label :=
        Some \<lparr>bits = data hm, width = wd, height = h, bytes_per_line = ch * wd\<rparr>\<rparr>,
     raised = None\<rparr>"
  unfolding run_heatmap_cases using assms by simp

text \<open>
  Claim C3. \<open>run_heatmap\<close> asks the codec for one encoding, at quality 70, and for at
  most one decoding, of that encoding. It completes exactly when the round trip at 70
  returns an image of the dimensions of the stored image and the colour map returns a
  three-dimensional array for their difference map. The map it then colours and shows
  is the difference map of the image and its round trip: it has the dimensions of the
  image and holds at each position the magnitude of the difference of the two bytes.
\<close>

theorem run_heatmap_difference_map:
  "count_list (calls (run_heatmap enc dec cm w)) (Imencode 70) = 1 \<and>
   count_list (calls (run_heatmap enc dec cm w)) Imdecode \<le> 1 \<and>
   set (calls (run_heatmap enc dec cm w)) \<subseteq> {Imencode 70, Imdecode} \<and>
   (raised (run_heatmap enc dec cm w) = None \<longleftrightarrow>
      (\<exists>r hm h wd ch. roundtrip enc dec (image w) 70 = Some r \<and> shape r = shape (image w) \<and>
         length (data r) = length (data (image w)) \<and>
         cm (difference_map (image w) r) = Inr hm \<and> shape hm = [h, wd, ch])) \<and>
   (raised (run_heatmap enc dec cm w) = None \<longrightarrow>
      (\<exists>r hm h wd ch. roundtrip enc dec (image w) 70 = Some r \<and>
         calls (run_heatmap enc dec cm w) = [Imencode 70, Imdecode] \<and>
         shape (difference_map (image w) r) = shape (image w) \<and>
         length (data (difference_map (image w) r)) = length (data (image w)) \<and>
         (\<forall>i<length (data (image w)).
            uint (data (difference_map (image w) r) ! i) =
              \<bar>uint (data (image w) ! i) - uint (data r ! i)\<bar>) \<and>
         cm (difference_map (image w) r) = Inr hm \<and> shape hm = [h, wd, ch] \<and>
         heatmap_label (widget_after (run_heatmap enc dec cm w)) =
           Some \<lparr>bits = data hm, width = wd, height = h, bytes_per_line = ch * wd\<rparr>))"
proof (intro conjI impI)
  show "count_list (calls (run_heatmap enc dec cm w)) (Imencode 70) = 1"
    by (simp add: run_heatmap_calls roundtrip_diff_calls)
  show "count_list (calls (run_heatmap enc dec cm w)) Imdecode \<le> 1"
    by (simp add: run_heatmap_calls roundtrip_diff_calls)
  show "set (calls (run_heatmap enc dec cm w)) \<subseteq> {Imencode 70, Imdecode}"
    by (simp add: run_heatmap_calls roundtrip_diff_calls)
  show "raised (run_heatmap enc dec cm w) = None \<longleftrightarrow>
      (\<exists>r hm h wd ch. roundtrip enc dec (image w) 70 = Some r \<and> shape r = shape (image w) \<and>
         length (data r) = length (data (image w)) \<and>
         cm (difference_map (image w) r) = Inr hm \<and> shape hm = [h, wd, ch])"
    unfolding run_heatmap_completes_iff roundtrip_diff_Inr_iff by blast
next
  assume "raised (run_heatmap enc dec cm w) = None"
  then obtain d hm h wd ch where d: "snd (roundtrip_diff enc dec (image w) 70) = Inr d"
    and hm: "cm d = Inr hm" and sh: "shape hm = [h, wd, ch]"
    unfolding run_heatmap_completes_iff by blast
  from d obtain r where r: "roundtrip enc dec (image w) 70 = Some r"
    and len: "length (data r) = length (data (image w))" and dm: "d = difference_map (image w) r"
    unfolding roundtrip_diff_Inr_iff by blast
  have run: "run_heatmap enc dec cm w =
    \<lparr>calls = [Imencode 70, Imdecode],
     widget_after = w\<lparr>heatmap_label :=
        Some \<lparr>bits = data hm, width = wd, height = h, bytes_per_line = ch * wd\<rparr>\<rparr>,
     raised = None\<rparr>"
    using d hm sh by (rule run_heatmap_completed)
  have a: "calls (run_heatmap enc dec cm w) = [Imencode 70, Imdecode]" by (simp add: run)
  have b: "shape (difference_map (image w) r) = shape (image w)"
    by (simp add: difference_map_def)
  have c: "length (data (difference_map (image w) r)) = length (data (image w))"
    by (simp add: difference_map_def len)
  have e: "\<forall>i<length (data (image w)).
            uint (data (difference_map (image w) r) ! i) =
              \<bar>uint (data (image w) ! i) - uint (data r ! i)\<bar>"
    by (simp add: difference_map_magnitude len)
  have f: "cm (difference_map (image w) r) = Inr hm" using hm dm by simp
  have g: "heatmap_label (widget_after (run_heatmap enc dec cm w)) =
           Some \<lparr>bits = data hm, width = wd, height = h, bytes_per_line = ch * wd\<rparr>"
    by (simp add: run)
  from r a b c e f sh g
  show "\<exists>r hm h wd ch. roundtrip enc dec (image w) 70 = Some r \<and>
         calls (run_heatmap enc dec cm w) = [Imencode 70, Imdecode] \<and>
         shape (difference_map (image w) r) = shape (image w) \<and>
         length (data (difference_map (image w) r)) = length (data (image w)) \<and>
         (\<forall>i<length (data (image w)).
            uint (data (difference_map (image w) r) ! i) =
              \<bar>uint (data (image w) ! i) - uint (data r ! i)\<bar>) \<and>
         cm (difference_map (image w) r) = Inr hm \<and> shape hm = [h, wd, ch] \<and>
         heatmap_label (widget_after (run_heatmap enc dec cm w)) =
           Some \<lparr>bits = data hm, width = wd, height = h, bytes_per_line = ch * wd\<rparr>"
    by (intro exI conjI)
qed

theorem run_heatmap_difference_map_witness:
  "raised (run_heatmap coarse_enc row_dec jet (init_widget ''a.jpg'' two_pixels)) = None \<and>
   calls (run_heatmap coarse_enc row_dec jet (init_widget ''a.jpg'' two_pixels)) =
     [Imencode 70, Imdecode] \<and>
   heatmap_label (widget_after (run_heatmap coarse_enc row_dec jet (init_widget ''a.jpg'' two_pixels))) =
     Some \<lparr>bits = [2, 1, 3, 0, 0, 3], width = 2, height = 1, bytes_per_line = 6\<rparr>"
proof -
  let ?w = "init_widget ''a.jpg'' two_pixels"
  let ?r = "\<lparr>shape = [1, 2, 3], data = [8, 20, 32, 200, 100, 4]\<rparr> :: ndarray"
  let ?d = "\<lparr>shape = [1, 2, 3], data = [2, 1, 3, 0, 0, 3]\<rparr> :: ndarray"
  note inst = run_heatmap_difference_map [of coarse_enc row_dec jet ?w]
  have img: "image ?w = two_pixels" by (simp add: init_widget_def)
  have rt: "roundtrip coarse_enc row_dec two_pixels 70 = Some ?r"
    by (simp add: roundtrip_def coarse_enc_def row_dec_def two_pixels_def)
  have dm: "difference_map two_pixels ?r = ?d"
    by (simp add: difference_map_def two_pixels_def)
  have ex: "\<exists>r hm h wd ch. roundtrip coarse_enc row_dec (image ?w) 70 = Some r \<and>
         shape r = shape (image ?w) \<and> length (data r) = length (data (image ?w)) \<and>
         jet (difference_map (image ?w) r) = Inr hm \<and> shape hm = [h, wd, ch]"
    by (simp add: img rt jet_def) (simp add: two_pixels_def difference_map_def)
  with inst have ok: "raised (run_heatmap coarse_enc row_dec jet ?w) = None"
    by (simp only: simp_thms)
  with inst obtain r hm h wd ch where r: "roundtrip coarse_enc row_dec (image ?w) 70 = Some r"
    and c: "calls (run_heatmap coarse_enc row_dec jet ?w) = [Imencode 70, Imdecode]"
    and hm: "jet (difference_map (image ?w) r) = Inr hm" and sh: "shape hm = [h, wd, ch]"
    and l: "heatmap_label (widget_after (run_heatmap coarse_enc row_dec jet ?w)) =
           Some \<lparr>bits = data hm, width = wd, height = h, bytes_per_line = ch * wd\<rparr>"
    by (elim conjE impE exE)
  from r have "r = ?r" by (simp add: img rt)
  with hm dm have "hm = ?d" by (simp add: img jet_def)
  with sh l have "heatmap_label (widget_after (run_heatmap coarse_enc row_dec jet ?w)) =
     Some \<lparr>bits = [2, 1, 3, 0, 0, 3], width = 2, height = 1, bytes_per_line = 6\<rparr>"
    by simp
  with ok c show ?thesis by (intro conjI)
qed

section \<open>Failures of the codec\<close>















section \<open>The result of the dependency check\<close>

lemma check_all_returns:
  "\<forall>(p, m)\<in>set ps. \<not> is_OtherError (import_module env m) \<Longrightarrow>
   snd (check_all env detailed ps available missing out) =
     Inr (available @ map fst (filter (\<lambda>(p, m). import_module env m = Imported) ps),
          missing @ map fst (filter (\<lambda>(p, m). is_ImportError (import_module env m)) ps))"
proof (induction ps arbitrary: available missing out)
  case Nil
  then show ?case by simp
next
  case (Cons pm ps)
  obtain p m where pm: "pm = (p, m)" by (cases pm)
  from Cons.prems have rest: "\<forall>(p, m)\<in>set ps. \<not> is_OtherError (import_module env m)" by simp
  show ?case
  proof (cases "import_module env m")
    case Imported
    with Cons.IH [OF rest] pm show ?thesis by (simp add: check_package_def Let_def)
  next
    case (ImportError e)
    with Cons.IH [OF rest] pm show ?thesis by (simp add: check_package_def Let_def)
  next
    case (OtherError x)
    with Cons.prems pm show ?thesis by simp
  qed
qed

lemma check_all_raises:
  "\<exists>(p, m)\<in>set ps. is_OtherError (import_module env m) \<Longrightarrow>
   isl (snd (check_all env detailed ps available missing out))"
proof (induction ps arbitrary: available missing out)
  case Nil
  then show ?case by simp
next
  case (Cons pm ps)
  obtain p m where pm: "pm = (p, m)" by (cases pm)
  show ?case
  proof (cases "import_module env m")
    case Imported
    with Cons.prems pm have "\<exists>(p, m)\<in>set ps. is_OtherError (import_module env m)" by simp
    from Cons.IH [OF this] Imported pm show ?thesis by (simp add: check_package_def Let_def)
  next
    case (ImportError e)
    with Cons.prems pm have "\<exists>(p, m)\<in>set ps. is_OtherError (import_module env m)" by simp
    from Cons.IH [OF this] ImportError pm show ?thesis by (simp add: check_package_def Let_def)
  next
    case (OtherError x)
    with pm show ?thesis by (simp add: check_package_def)
  qed
qed

lemma validate_dependencies_snd:
  "snd (validate_dependencies detailed env) =
     (case check_tensorflow env of
        Inl x \<Rightarrow> Inl x
      | Inr tf \<Rightarrow>
          (case snd (check_all env detailed get_required_packages [] []
                      ((if detailed then [Validating, Rule] else []) @
                       (if detailed then [Message (snd tf), RequiredPackages] else []))) of
             Inl x \<Rightarrow> Inl x
           | Inr (available, missing) \<Rightarrow> Inr (length missing = 0, available, missing)))"
  by (simp add: validate_dependencies_def Let_def split: sum.splits prod.splits)

lemma partition_names:
  "distinct (map fst ps) \<Longrightarrow> \<forall>x\<in>set ps. P x \<noteq> Q x \<Longrightarrow>
   distinct (map fst (filter P ps) @ map fst (filter Q ps)) \<and>
   set (map fst (filter P ps)) \<union> set (map fst (filter Q ps)) = set (map fst ps) \<and>
   length (filter P ps) + length (filter Q ps) = length ps"
  by (induction ps) force+

lemma required_packages_facts:
  "length get_required_packages = 16" "distinct (map fst get_required_packages)"
  "''tensorflow'' \<notin> snd ` set get_required_packages"
  by (simp_all add: get_required_packages_def)

lemma validate_dependencies_returns:
  assumes "\<not> isl (check_tensorflow env)"
    and "\<forall>(p, m)\<in>set get_required_packages. \<not> is_OtherError (import_module env m)"
  shows "snd (validate_dependencies detailed env) =
    Inr (map fst (filter (\<lambda>(p, m). is_ImportError (import_module env m)) get_required_packages) = [],
         map fst (filter (\<lambda>(p, m). import_module env m = Imported) get_required_packages),
         map fst (filter (\<lambda>(p, m). is_ImportError (import_module env m)) get_required_packages))"
proof -
  from assms(1) obtain tf where "check_tensorflow env = Inr tf"
    by (cases "check_tensorflow env") auto
  then show ?thesis
    by (simp add: validate_dependencies_snd check_all_returns [OF assms(2)])
qed

lemma validate_dependencies_raises_iff:
  "isl (snd (validate_dependencies detailed env)) \<longleftrightarrow>
     isl (check_tensorflow env) \<or>
     (\<exists>(p, m)\<in>set get_required_packages. is_OtherError (import_module env m))"
proof (cases "check_tensorflow env")
  case (Inl x)
  then show ?thesis by (simp add: validate_dependencies_snd)
next
  case (Inr tf)
  show ?thesis
  proof (cases "\<exists>(p, m)\<in>set get_required_packages. is_OtherError (import_module env m)")
    case True
    let ?out = "(if detailed then [Validating, Rule] else []) @
                (if detailed then [Message (snd tf), RequiredPackages] else [])"
    from check_all_raises [OF True, of detailed "[]" "[]" ?out]
    obtain x where "snd (check_all env detailed get_required_packages [] [] ?out) = Inl x"
      by (cases "snd (check_all env detailed get_required_packages [] [] ?out)") auto
    with Inr True show ?thesis
      unfolding validate_dependencies_snd by simp
  next
    case False
    then have ok: "\<forall>(p, m)\<in>set get_required_packages. \<not> is_OtherError (import_module env m)"
      by blast
    from Inr have "\<not> isl (check_tensorflow env)" by simp
    from validate_dependencies_returns [OF this ok] False Inr show ?thesis by simp
  qed
qed

lemma check_all_same_imports:
  "\<forall>(p, m)\<in>set ps. import_module env' m = import_module env m \<Longrightarrow>
   snd (check_all env' detailed' ps available missing out') =
   snd (check_all env detailed ps available missing out)"
proof (induction ps arbitrary: available missing out out')
  case Nil
  then show ?case by simp
next
  case (Cons pm ps)
  obtain p m where pm: "pm = (p, m)" by (cases pm)
  from Cons.prems pm have same: "import_module env' m = import_module env m"
    and rest: "\<forall>(p, m)\<in>set ps. import_module env' m = import_module env m" by simp_all
  show ?case
    by (cases "import_module env m")
       (simp_all add: pm same check_package_def Let_def Cons.IH [OF rest])
qed

lemma validate_dependencies_same_imports:
  assumes "\<forall>m. m \<noteq> ''tensorflow'' \<longrightarrow> import_module env' m = import_module env m"
    and "\<not> isl (check_tensorflow env)" and "\<not> isl (check_tensorflow env')"
  shows "snd (validate_dependencies detailed' env') = snd (validate_dependencies detailed env)"
proof -
  from assms(2) obtain tf where tf: "check_tensorflow env = Inr tf"
    by (cases "check_tensorflow env") auto
  from assms(3) obtain tf' where tf': "check_tensorflow env' = Inr tf'"
    by (cases "check_tensorflow env'") auto
  have "\<forall>(p, m)\<in>set get_required_packages. m \<noteq> ''tensorflow''"
    using required_packages_facts(3) by force
  with assms(1)
  have same: "\<forall>(p, m)\<in>set get_required_packages. import_module env' m = import_module env m"
    by blast
  have eq: "snd (check_all env' detailed' get_required_packages [] []
                  ((if detailed' then [Validating, Rule] else []) @
                   (if detailed' then [Message (snd tf'), RequiredPackages] else []))) =
            snd (check_all env detailed get_required_packages [] []
                  ((if detailed then [Validating, Rule] else []) @
                   (if detailed then [Message (snd tf), RequiredPackages] else [])))"
    using same by (rule check_all_same_imports)
  show ?thesis
    unfolding validate_dependencies_snd tf tf' sum.case eq by (rule refl)
qed

text \<open>
  Claim C10. \<open>validate_dependencies\<close> returns its triple unless the TensorFlow check or
  the import of a required package raises something other than \<open>ImportError\<close>. In the
  triple, \<open>all_good\<close> holds exactly when \<open>missing\<close> is empty; \<open>available\<close> lists the
  required packages whose module imports and \<open>missing\<close> those whose import raises
  \<open>ImportError\<close>, each in the order of the dictionary, so that every one of the 16
  required packages is in exactly one of the two lists. Whether TensorFlow can be
  imported, and whether the output is printed, changes no component of the triple.
\<close>

theorem validate_dependencies_result:
  "(isl (snd (validate_dependencies detailed env)) \<longleftrightarrow>
      isl (check_tensorflow env) \<or>
      (\<exists>(p, m)\<in>set get_required_packages. is_OtherError (import_module env m))) \<and>
   (snd (validate_dependencies detailed env) = Inr (all_good, available, missing) \<longrightarrow>
      (all_good \<longleftrightarrow> missing = []) \<and>
      available =
        map fst (filter (\<lambda>(p, m). import_module env m = Imported) get_required_packages) \<and>
      missing =
        map fst (filter (\<lambda>(p, m). is_ImportError (import_module env m)) get_required_packages) \<and>
      distinct (available @ missing) \<and>
      set available \<union> set missing = set (map fst get_required_packages) \<and>
      length available + length missing = 16) \<and>
   length get_required_packages = 16 \<and> distinct (map fst get_required_packages) \<and>
   ((\<forall>m. m \<noteq> ''tensorflow'' \<longrightarrow> import_module env' m = import_module env m) \<and>
    \<not> isl (check_tensorflow env) \<and> \<not> isl (check_tensorflow env') \<longrightarrow>
      snd (validate_dependencies detailed' env') = snd (validate_dependencies detailed env))"
proof (intro conjI impI)
  show "isl (snd (validate_dependencies detailed env)) \<longleftrightarrow>
      isl (check_tensorflow env) \<or>
      (\<exists>(p, m)\<in>set get_required_packages. is_OtherError (import_module env m))"
    by (rule validate_dependencies_raises_iff)
next
  show "length get_required_packages = 16" by (rule required_packages_facts)
next
  show "distinct (map fst get_required_packages)" by (rule required_packages_facts)
next
  assume "(\<forall>m. m \<noteq> ''tensorflow'' \<longrightarrow> import_module env' m = import_module env m) \<and>
    \<not> isl (check_tensorflow env) \<and> \<not> isl (check_tensorflow env')"
  then show "snd (validate_dependencies detailed' env') = snd (validate_dependencies detailed env)"
    by (simp add: validate_dependencies_same_imports)
next
  let ?P = "\<lambda>(p :: string, m). import_module env m = Imported"
  let ?Q = "\<lambda>(p :: string, m). is_ImportError (import_module env m)"
  assume res: "snd (validate_dependencies detailed env) = Inr (all_good, available, missing)"
  then have "\<not> isl (snd (validate_dependencies detailed env))" by simp
  then have tf: "\<not> isl (check_tensorflow env)"
    and ok: "\<forall>(p, m)\<in>set get_required_packages. \<not> is_OtherError (import_module env m)"
    unfolding validate_dependencies_raises_iff by blast+
  from validate_dependencies_returns [OF tf ok, of detailed] res
  have g: "all_good \<longleftrightarrow> missing = []"
    and a: "available = map fst (filter ?P get_required_packages)"
    and m: "missing = map fst (filter ?Q get_required_packages)"
    by auto
  have "\<forall>x\<in>set get_required_packages. ?P x \<noteq> ?Q x"
  proof
    fix x assume x: "x \<in> set get_required_packages"
    obtain p n where pn: "x = (p, n)" by (cases x)
    with ok x have "\<not> is_OtherError (import_module env n)" by blast
    with pn show "?P x \<noteq> ?Q x" by (cases "import_module env n") simp_all
  qed
  from partition_names [OF required_packages_facts(2) this]
  have d: "distinct (available @ missing)"
    and u: "set available \<union> set missing = set (map fst get_required_packages)"
    and l: "length available + length missing = 16"
    by (simp_all only: a m length_map required_packages_facts(1))
  show "all_good \<longleftrightarrow> missing = []" by (rule g)
  show "available = map fst (filter ?P get_required_packages)" by (rule a)
  show "missing = map fst (filter ?Q get_required_packages)" by (rule m)
  show "distinct (available @ missing)" by (rule d)
  show "set available \<union> set missing = set (map fst get_required_packages)" by (rule u)
  show "length available + length missing = 16" by (rule l)
qed

lemma bare_env_result:
  "snd (validate_dependencies True bare_env) =
     Inr (False, [''opencv-contrib-python-headless'', ''numpy''],
          [''PySide6'', ''Pillow'', ''matplotlib'', ''pandas'', ''scikit-learn'', ''lxml'',
           ''python-magic'', ''rawpy'', ''sewar'', ''PyWavelets'', ''astor'',
           ''concurrent-iterator'', ''keras-applications'', ''xgboost''])"
  by (simp add: validate_dependencies_snd check_tensorflow_def bare_env_def
      get_required_packages_def check_package_def Let_def)

theorem validate_dependencies_result_witness:
  "snd (validate_dependencies True bare_env) =
     Inr (False, [''opencv-contrib-python-headless'', ''numpy''],
          [''PySide6'', ''Pillow'', ''matplotlib'', ''pandas'', ''scikit-learn'', ''lxml'',
           ''python-magic'', ''rawpy'', ''sewar'', ''PyWavelets'', ''astor'',
           ''concurrent-iterator'', ''keras-applications'', ''xgboost'']) \<and>
   import_module tf_env ''tensorflow'' \<noteq> import_module bare_env ''tensorflow'' \<and>
   snd (validate_dependencies False tf_env) = snd (validate_dependencies True bare_env) \<and>
   set [''opencv-contrib-python-headless'', ''numpy''] \<union>
     set [''PySide6'', ''Pillow'', ''matplotlib'', ''pandas'', ''scikit-learn'', ''lxml'',
           ''python-magic'', ''rawpy'', ''sewar'', ''PyWavelets'', ''astor'',
           ''concurrent-iterator'', ''keras-applications'', ''xgboost''] =
     set (map fst get_required_packages)"
proof -
  let ?A = "[''opencv-contrib-python-headless'', ''numpy'']"
  let ?M = "[''PySide6'', ''Pillow'', ''matplotlib'', ''pandas'', ''scikit-learn'', ''lxml'',
           ''python-magic'', ''rawpy'', ''sewar'', ''PyWavelets'', ''astor'',
           ''concurrent-iterator'', ''keras-applications'', ''xgboost'']"
  note inst = validate_dependencies_result [of True bare_env False ?A ?M tf_env False]
  note res = bare_env_result
  have tf: "(\<forall>m. m \<noteq> ''tensorflow'' \<longrightarrow> import_module tf_env m = import_module bare_env m) \<and>
    \<not> isl (check_tensorflow bare_env) \<and> \<not> isl (check_tensorflow tf_env)"
    by (simp add: tf_env_def bare_env_def check_tensorflow_def)
  have differ: "import_module tf_env ''tensorflow'' \<noteq> import_module bare_env ''tensorflow''"
    by (simp add: tf_env_def bare_env_def)
  note parts = mp [OF inst [THEN conjunct2, THEN conjunct1] res]
  note same = mp [OF inst [THEN conjunct2, THEN conjunct2, THEN conjunct2, THEN conjunct2] tf]
  from parts have "set ?A \<union> set ?M = set (map fst get_required_packages)"
    by (elim conjE)
  with res differ same show ?thesis by (intro conjI)
qed

section \<open>The histogram counts every pixel once\<close>

lemma sum_count_bytes: "(\<Sum>v = 0..<256. count_list xs (of_nat v :: u8)) = length xs"
proof -
  have inj: "inj_on (word_of_nat :: nat \<Rightarrow> u8) {0..<256}"
    using inj_on_word_of_nat [where ?'a = 8] by simp
  have univ: "(word_of_nat :: nat \<Rightarrow> u8) ` {0..<256} = UNIV"
    using UNIV_word_eq_word_of_nat [where ?'a = 8] by simp
  have "(\<Sum>v = 0..<256. count_list xs (of_nat v :: u8)) =
        sum (count_list xs) ((word_of_nat :: nat \<Rightarrow> u8) ` {0..<256})"
    by (simp add: sum.reindex [OF inj] comp_def)
  also have "\<dots> = sum (count_list xs) UNIV" by (simp only: univ)
  also have "\<dots> = length xs" by (rule sum_count_set) simp_all
  finally show ?thesis .
qed

lemma sum_list_compute_hist: "sum_list (compute_hist img) = int (length (data img))"
proof -
  have "sum_list (compute_hist img) =
        (\<Sum>v = 0..<256. int (count_list (data img) (of_nat v :: u8)))"
    unfolding compute_hist_def by (simp only: interv_sum_list_conv_sum_set_nat set_upt)
  also have "\<dots> = int (\<Sum>v = 0..<256. count_list (data img) (of_nat v :: u8))" by simp
  finally show ?thesis by (simp only: sum_count_bytes)
qed

text \<open>
  Claim C7. For a single-channel image of \<open>h\<close> rows and \<open>w\<close> columns, \<open>compute_hist\<close>
  gives 256 bins, none of them negative, and the bins add up to the number of pixels,
  \<open>h * w\<close>.
\<close>

theorem compute_hist_counts_pixels:
  "wf_array img \<Longrightarrow> shape img = [h, w] \<Longrightarrow>
   length (compute_hist img) = 256 \<and>
   (\<forall>c\<in>set (compute_hist img). 0 \<le> c) \<and>
   sum_list (compute_hist img) = int (h * w)"
proof -
  assume wf: "wf_array img" and sh: "shape img = [h, w]"
  then have len: "length (data img) = h * w" by (simp add: wf_array_def)
  have a: "length (compute_hist img) = 256" by (simp add: compute_hist_def)
  have b: "\<forall>c\<in>set (compute_hist img). 0 \<le> c" by (auto simp: compute_hist_def)
  have c: "sum_list (compute_hist img) = int (h * w)"
    by (simp only: sum_list_compute_hist len)
  from a b c show ?thesis by (intro conjI)
qed

theorem compute_hist_counts_pixels_witness:
  "wf_array \<lparr>shape = [2, 3], data = [10, 21, 10, 200, 0, 21]\<rparr> \<and>
   length (compute_hist \<lparr>shape = [2, 3], data = [10, 21, 10, 200, 0, 21]\<rparr>) = 256 \<and>
   sum_list (compute_hist \<lparr>shape = [2, 3], data = [10, 21, 10, 200, 0, 21]\<rparr>) = 6 \<and>
   compute_hist \<lparr>shape = [2, 3], data = [10, 21, 10, 200, 0, 21]\<rparr> ! 10 = 2"
proof -
  let ?img = "\<lparr>shape = [2, 3], data = [10, 21, 10, 200, 0, 21]\<rparr> :: ndarray"
  have wf: "wf_array ?img" by (simp add: wf_array_def)
  have sh: "shape ?img = [2, 3]" by simp
  have bin: "compute_hist ?img ! 10 = 2" by (simp add: compute_hist_def)
  from compute_hist_counts_pixels [OF wf sh] wf bin show ?thesis by simp
qed

section \<open>The loader on four channels\<close>

lemma discard_alpha_pixels:
  "length xs = 4 * n \<Longrightarrow>
   length (discard_alpha xs) = 3 * n \<and>
   (\<forall>p<n. \<forall>k<3. discard_alpha xs ! (3 * p + k) = xs ! (4 * p + k))"
proof (induction n arbitrary: xs)
  case 0
  then show ?case by simp
next
  case (Suc n)
  then obtain b g r a ys where xs: "xs = b # g # r # a # ys" and ys: "length ys = 4 * n"
    by (cases xs rule: discard_alpha.cases) auto
  note IH = Suc.IH [OF ys]
  have "discard_alpha xs ! (3 * p + k) = xs ! (4 * p + k)" if "p < Suc n" and "k < 3" for p k
  proof (cases p)
    case 0
    from that(2) have "k = 0 \<or> k = 1 \<or> k = 2" by arith
    with 0 xs show ?thesis by auto
  next
    case (Suc p')
    with that have "p' < n" by simp
    with IH that(2) have "discard_alpha ys ! (3 * p' + k) = ys ! (4 * p' + k)" by blast
    with Suc xs show ?thesis by (simp add: numeral_3_eq_3 numeral_Bit0 nth_Cons')
  qed
  with IH xs show ?case by simp
qed

text \<open>
  Claim C8. On a four-channel buffer of \<open>h\<close> rows and \<open>w\<close> columns that is not empty,
  \<open>load_image\<close> gives an image of three channels and the same rows and columns, and
  each of the three channels of each pixel is the byte of that channel in the source:
  the fourth channel is dropped and takes no part in the result.
\<close>

theorem load_image_discards_alpha:
  "wf_array src \<Longrightarrow> shape src = [h, w, 4] \<Longrightarrow> 0 < h * w \<Longrightarrow>
   (\<exists>img. load_image src = Inr img \<and> shape img = [h, w, 3] \<and> wf_array img \<and>
      (\<forall>p<h * w. \<forall>k<3. data img ! (3 * p + k) = data src ! (4 * p + k)))"
proof -
  assume wf: "wf_array src" and sh: "shape src = [h, w, 4]" and ne: "0 < h * w"
  let ?img = "\<lparr>shape = [h, w, 3], data = discard_alpha (data src)\<rparr>"
  from wf sh have "length (data src) = 4 * (h * w)" by (simp add: wf_array_def)
  from discard_alpha_pixels [OF this]
  have len: "length (discard_alpha (data src)) = 3 * (h * w)"
    and px: "\<forall>p<h * w. \<forall>k<3. discard_alpha (data src) ! (3 * p + k) = data src ! (4 * p + k)"
    by simp_all
  from sh ne have a: "load_image src = Inr ?img" by (simp add: load_image_def)
  have b: "shape ?img = [h, w, 3]" by simp
  from len have c: "wf_array ?img" by (simp add: wf_array_def)
  from px have d: "\<forall>p<h * w. \<forall>k<3. data ?img ! (3 * p + k) = data src ! (4 * p + k)" by simp
  from a b c d show ?thesis by (intro exI [of _ ?img] conjI)
qed

theorem load_image_discards_alpha_witness:
  "wf_array \<lparr>shape = [1, 2, 4], data = [1, 2, 3, 255, 4, 5, 6, 128]\<rparr> \<and>
   load_image \<lparr>shape = [1, 2, 4], data = [1, 2, 3, 255, 4, 5, 6, 128]\<rparr> =
     Inr \<lparr>shape = [1, 2, 3], data = [1, 2, 3, 4, 5, 6]\<rparr> \<and>
   (\<exists>img. load_image \<lparr>shape = [1, 2, 4], data = [1, 2, 3, 255, 4, 5, 6, 128]\<rparr> = Inr img \<and>
      wf_array img \<and> data img ! (3 * 1 + 2) = 6)"
proof -
  let ?src = "\<lparr>shape = [1, 2, 4], data = [1, 2, 3, 255, 4, 5, 6, 128]\<rparr> :: ndarray"
  have wf: "wf_array ?src" by (simp add: wf_array_def)
  have sh: "shape ?src = [1, 2, 4]" by simp
  have ne: "0 < (1 :: nat) * 2" by simp
  from load_image_discards_alpha [OF wf sh ne]
  obtain img where l: "load_image ?src = Inr img" and w: "wf_array img"
    and px: "\<forall>p<1 * 2. \<forall>k<3. data img ! (3 * p + k) = data ?src ! (4 * p + k)"
    by blast
  from px have "(1 :: nat) < 1 * 2 \<longrightarrow> (2 :: nat) < 3 \<longrightarrow>
      data img ! (3 * 1 + 2) = data ?src ! (4 * 1 + 2)" by blast
  then have six: "data img ! (3 * 1 + 2) = 6" by simp
  have out: "load_image ?src = Inr \<lparr>shape = [1, 2, 3], data = [1, 2, 3, 4, 5, 6]\<rparr>"
    by (simp add: load_image_def)
  from l w six have "\<exists>img. load_image ?src = Inr img \<and> wf_array img \<and>
       data img ! (3 * 1 + 2) = 6" by blast
  with wf out show ?thesis by (intro conjI)
qed

end
